theory Spec2Isabelle
  imports Main
begin

section \<open>Data model\<close>

text \<open>
  The repository's one piece of logic is the signal receiver of
  \<^verbatim>\<open>revision_v2/mysite/users/signals.py\<close>:
  \<^verbatim>\<open>
  @receiver(post_save,sender=User)
  def build_profile(sender,instance,created,**kwargs):
     if created:
        Profile.objects.create(user=instance)
  \<close>
  It reads nothing of the user but its identity, and writes the Profile table through
  the ORM. The database is modelled as explicit state: the two tables, the sequence of
  writes issued so far (also the rejected ones), and the condition of the Profile
  storage.
\<close>

record user =
  user_id :: nat
  username :: string

record profile =
  profile_user_id :: nat

text \<open>
  Modelled from the spec: the error a Profile creation can end in (section 7,
  \<open>ProvisioningError\<close>: storage fault, constraint violation, duplicate association).
  The receiver has no exception class of its own; whatever the ORM raises is what leaves it.
\<close>

datatype ProvisioningError = StorageFault | ConstraintViolation | DuplicateAssociation

datatype db_write = UserInsert nat | UserUpdate nat | ProfileInsert nat

record db =
  users :: "user list"
  profiles :: "profile list"
  writes :: "db_write list"
  profile_store_fault :: "ProvisioningError option"

text \<open>\<open>None\<close>: the call returned normally; \<open>Some e\<close>: it raised \<open>e\<close>.\<close>

type_synonym outcome = "ProvisioningError option"

datatype sender = User | Profile

type_synonym kwargs = "(string \<times> string) list"

definition profile_count :: "nat \<Rightarrow> db \<Rightarrow> nat" where
  "profile_count uid d = length (filter (\<lambda>p. profile_user_id p = uid) (profiles d))"

definition user_exists :: "nat \<Rightarrow> db \<Rightarrow> bool" where
  "user_exists uid d = (uid \<in> set (map user_id (users d)))"

section \<open>The Profile store\<close>

text \<open>
  Modelled from the spec: \<^verbatim>\<open>Profile.objects.create(user=...)\<close>. The Profile model
  (\<^verbatim>\<open>users/models.py\<close>) and the ORM are not among the sources. Section 3: a Profile
  has a required one-to-one association to exactly one User, and at most one Profile
  references a User; sections 4.1 and 7: the creation fails when the storage is
  unavailable or a constraint is violated, such as a duplicate association; section 5:
  the User row must be visible for the association to be valid, so a Profile for a User
  that has no row is rejected as a constraint violation. The receiver's commented-out
  sibling reads \<^verbatim>\<open>instance.profile\<close>, the reverse accessor of such a one-to-one
  field. A rejected insert adds no row.
\<close>

definition Profile_objects_create :: "user \<Rightarrow> db \<Rightarrow> outcome \<times> db" where
  "Profile_objects_create u d =
     (let d1 = d\<lparr>writes := writes d @ [ProfileInsert (user_id u)]\<rparr> in
      case profile_store_fault d of
        Some e \<Rightarrow> (Some e, d1)
      | None \<Rightarrow>
          if 0 < profile_count (user_id u) d then (Some DuplicateAssociation, d1)
          else if \<not> user_exists (user_id u) d then (Some ConstraintViolation, d1)
          else (None, d1\<lparr>profiles := profiles d @ [\<lparr>profile_user_id = user_id u\<rparr>]\<rparr>))"

section \<open>The receiver\<close>

definition build_profile :: "sender \<Rightarrow> user \<Rightarrow> bool \<Rightarrow> kwargs \<Rightarrow> db \<Rightarrow> outcome \<times> db" where
  "build_profile sender inst created kwargs d =
     (if created then Profile_objects_create inst d else (None, d))"

text \<open>
  A sequence of firings of the receiver, each with its instance and its flag. A firing
  that raises leaves the state its failed write left, and later firings run on it.
\<close>

fun fire_all :: "(user \<times> bool) list \<Rightarrow> db \<Rightarrow> db" where
  "fire_all [] d = d"
| "fire_all ((u, created) # fs) d = fire_all fs (snd (build_profile User u created [] d))"

section \<open>The persistence layer that fires the receiver\<close>

text \<open>
  Modelled from the spec: saving a User (the framework's \<^verbatim>\<open>save\<close> and its
  \<^verbatim>\<open>post_save\<close> dispatch are not among the sources). Section 4.1, trigger semantics:
  the layer writes the User row, then invokes the receiver synchronously, once, with a
  flag that is true only on the first insert of the row; section 5: the Profile write is
  ordered after the User write has become visible, and the source does not enforce
  atomicity across the two writes; section 7: a failure of the receiver reaches the
  caller of the save. The decorator \<^verbatim>\<open>@receiver(post_save,sender=User)\<close> connects the
  receiver for the sender User only.
\<close>

definition save_table :: "user \<Rightarrow> db \<Rightarrow> bool \<times> db" where
  "save_table u d =
     (if user_exists (user_id u) d
      then (False, d\<lparr>users := map (\<lambda>v. if user_id v = user_id u then u else v) (users d),
                      writes := writes d @ [UserUpdate (user_id u)]\<rparr>)
      else (True, d\<lparr>users := users d @ [u],
                     writes := writes d @ [UserInsert (user_id u)]\<rparr>))"

definition post_save_kwargs :: kwargs where
  "post_save_kwargs = [(''raw'', ''False''), (''using'', ''default'')]"

definition post_save_send :: "sender \<Rightarrow> user \<Rightarrow> bool \<Rightarrow> db \<Rightarrow> outcome \<times> db" where
  "post_save_send sender inst created d =
     (if sender = User then build_profile sender inst created post_save_kwargs d
      else (None, d))"

definition User_save :: "user \<Rightarrow> db \<Rightarrow> outcome \<times> db" where
  "User_save u d =
     (case save_table u d of (created, d1) \<Rightarrow> post_save_send User u created d1)"

text \<open>
  Modelled from the spec: a surrounding transaction (section 5: the two writes are to be
  considered part of one logical transaction boundary). Rolling back restores both tables
  to the snapshot taken when the transaction began; the record of the writes that were
  issued stays.
\<close>

definition rollback :: "db \<Rightarrow> db \<Rightarrow> db" where
  "rollback snapshot d = d\<lparr>users := users snapshot, profiles := profiles snapshot\<rparr>"

text \<open>
  The events of the system: a User is saved (created or updated, as \<open>save_table\<close>
  finds), a User is saved inside a transaction of the caller's (which rolls back when the
  save raises, or when \<open>aborted\<close> says a later statement of the transaction did), and
  the Profile storage fails or recovers.
\<close>

datatype event = Save user | AtomicSave user bool | SetFault "ProvisioningError option"

fun step :: "db \<Rightarrow> event \<Rightarrow> db" where
  "step d (Save u) = snd (User_save u d)"
| "step d (AtomicSave u aborted) =
     (case User_save u d of
        (r, d') \<Rightarrow> if r \<noteq> None \<or> aborted then rollback d d' else d')"
| "step d (SetFault f) = d\<lparr>profile_store_fault := f\<rparr>"

definition run :: "db \<Rightarrow> event list \<Rightarrow> db" where
  "run d evs = foldl step d evs"

definition init :: db where
  "init = \<lparr>users = [], profiles = [], writes = [], profile_store_fault = None\<rparr>"

text \<open>
  Every save of the run that was not inside a transaction returned normally. (A save
  inside a transaction that raises is rolled back.)
\<close>

fun saves_ok :: "db \<Rightarrow> event list \<Rightarrow> bool" where
  "saves_ok d [] = True"
| "saves_ok d (Save u # evs) = (fst (User_save u d) = None \<and> saves_ok (step d (Save u)) evs)"
| "saves_ok d (AtomicSave u aborted # evs) = saves_ok (step d (AtomicSave u aborted)) evs"
| "saves_ok d (SetFault f # evs) = saves_ok (step d (SetFault f)) evs"

definition alice :: user where
  "alice = \<lparr>user_id = 1, username = ''alice''\<rparr>"

definition alice2 :: user where
  "alice2 = \<lparr>user_id = 1, username = ''alice2''\<rparr>"

definition bob :: user where
  "bob = \<lparr>user_id = 2, username = ''bob''\<rparr>"

section \<open>Predicates the properties are stated with\<close>

fun is_profile_write :: "db_write \<Rightarrow> bool" where
  "is_profile_write (ProfileInsert uid) = True"
| "is_profile_write w = False"

definition no_orphan_profile :: "db \<Rightarrow> bool" where
  "no_orphan_profile d = (\<forall>p\<in>set (profiles d). user_exists (profile_user_id p) d)"

definition one_profile_each :: "db \<Rightarrow> bool" where
  "one_profile_each d = (\<forall>u\<in>set (users d). profile_count (user_id u) d = 1)"

definition profile_writes_follow :: "db_write list \<Rightarrow> bool" where
  "profile_writes_follow ws =
     (\<forall>ws1 uid ws2. ws = ws1 @ ProfileInsert uid # ws2 \<longrightarrow>
        ws1 \<noteq> [] \<and> last ws1 = UserInsert uid)"

definition store_down :: db where
  "store_down = init\<lparr>profile_store_fault := Some StorageFault\<rparr>"

section \<open>What the store operations and a save do\<close>

lemma Profile_objects_create_fst:
  "fst (Profile_objects_create u d) =
     (case profile_store_fault d of Some e \<Rightarrow> Some e
      | None \<Rightarrow>
          if 0 < profile_count (user_id u) d then Some DuplicateAssociation
          else if \<not> user_exists (user_id u) d then Some ConstraintViolation
          else None)"
  by (simp add: Profile_objects_create_def Let_def split: option.splits)

lemma Profile_objects_create_profiles:
  "profiles (snd (Profile_objects_create u d)) =
     (if fst (Profile_objects_create u d) = None
      then profiles d @ [\<lparr>profile_user_id = user_id u\<rparr>] else profiles d)"
  by (simp add: Profile_objects_create_def Let_def split: option.splits)

lemma Profile_objects_create_users:
  "users (snd (Profile_objects_create u d)) = users d"
  by (simp add: Profile_objects_create_def Let_def split: option.splits)

lemma Profile_objects_create_writes:
  "writes (snd (Profile_objects_create u d)) = writes d @ [ProfileInsert (user_id u)]"
  by (simp add: Profile_objects_create_def Let_def split: option.splits)

lemma Profile_objects_create_fault:
  "profile_store_fault (snd (Profile_objects_create u d)) = profile_store_fault d"
  by (simp add: Profile_objects_create_def Let_def split: option.splits)

lemma Profile_objects_create_ok:
  "(fst (Profile_objects_create u d) = None) =
     (profile_store_fault d = None \<and> profile_count (user_id u) d = 0
      \<and> user_exists (user_id u) d)"
  by (simp add: Profile_objects_create_fst split: option.splits)

lemma User_save_new:
  "\<not> user_exists (user_id u) d \<Longrightarrow>
     User_save u d =
       Profile_objects_create u
         (d\<lparr>users := users d @ [u], writes := writes d @ [UserInsert (user_id u)]\<rparr>)"
  by (simp add: User_save_def save_table_def post_save_send_def build_profile_def)

lemma User_save_update:
  "user_exists (user_id u) d \<Longrightarrow>
     User_save u d =
       (None, d\<lparr>users := map (\<lambda>v. if user_id v = user_id u then u else v) (users d),
                 writes := writes d @ [UserUpdate (user_id u)]\<rparr>)"
  by (simp add: User_save_def save_table_def post_save_send_def build_profile_def)

lemma profile_count_simps:
  "profile_count uid (d\<lparr>users := us\<rparr>) = profile_count uid d"
  "profile_count uid (d\<lparr>writes := ws\<rparr>) = profile_count uid d"
  "profile_count uid (d\<lparr>profile_store_fault := f\<rparr>) = profile_count uid d"
  by (simp_all add: profile_count_def)

lemma user_exists_simps:
  "user_exists uid (d\<lparr>profiles := ps\<rparr>) = user_exists uid d"
  "user_exists uid (d\<lparr>writes := ws\<rparr>) = user_exists uid d"
  "user_exists uid (d\<lparr>profile_store_fault := f\<rparr>) = user_exists uid d"
  by (simp_all add: user_exists_def)

lemma user_ids_update:
  "map user_id (map (\<lambda>v. if user_id v = user_id u then u else v) us) = map user_id us"
  by (induction us) auto

lemma profile_count_zero:
  "(profile_count uid d = 0) = (uid \<notin> set (map profile_user_id (profiles d)))"
  by (auto simp: profile_count_def filter_empty_conv)

lemma distinct_filter_le_1:
  "distinct (map f xs) \<Longrightarrow> length (filter (\<lambda>x. f x = a) xs) \<le> 1"
proof (induction xs)
  case Nil
  then show ?case by simp
next
  case (Cons x xs)
  show ?case
  proof (cases "f x = a")
    case True
    with Cons.prems have "\<forall>y\<in>set xs. f y \<noteq> a"
      by (metis distinct.simps(2) image_eqI list.simps(9) set_map)
    then have "filter (\<lambda>x. f x = a) xs = []" by (simp add: filter_empty_conv)
    with True show ?thesis by simp
  next
    case False
    with Cons show ?thesis by simp
  qed
qed

lemma distinct_profile_count:
  "distinct (map profile_user_id (profiles d)) \<Longrightarrow> profile_count uid d \<le> 1"
  unfolding profile_count_def by (rule distinct_filter_le_1)

lemma User_save_cases:
  obtains (created) "\<not> user_exists (user_id u) d"
      "fst (User_save u d) = None"
      "profile_store_fault d = None"
      "profile_count (user_id u) d = 0"
      "users (snd (User_save u d)) = users d @ [u]"
      "profiles (snd (User_save u d)) = profiles d @ [\<lparr>profile_user_id = user_id u\<rparr>]"
      "writes (snd (User_save u d)) = writes d @ [UserInsert (user_id u), ProfileInsert (user_id u)]"
    | (failed) e where "\<not> user_exists (user_id u) d"
      "fst (User_save u d) = Some e"
      "profile_store_fault d = Some e \<or> 0 < profile_count (user_id u) d"
      "users (snd (User_save u d)) = users d @ [u]"
      "profiles (snd (User_save u d)) = profiles d"
      "writes (snd (User_save u d)) = writes d @ [UserInsert (user_id u), ProfileInsert (user_id u)]"
    | (updated) "user_exists (user_id u) d"
      "fst (User_save u d) = None"
      "users (snd (User_save u d)) = map (\<lambda>v. if user_id v = user_id u then u else v) (users d)"
      "profiles (snd (User_save u d)) = profiles d"
      "writes (snd (User_save u d)) = writes d @ [UserUpdate (user_id u)]"
proof (cases "user_exists (user_id u) d")
  case True
  then show ?thesis using updated by (simp add: User_save_update)
next
  case False
  show ?thesis
  proof (cases "fst (User_save u d)")
    case None
    with False show ?thesis using created
      by (simp add: User_save_new Profile_objects_create_def Let_def profile_count_simps
            user_exists_def split: option.splits if_splits)
  next
    case (Some e)
    with False show ?thesis using failed [of e]
      by (simp add: User_save_new Profile_objects_create_def Let_def profile_count_simps
            user_exists_def split: option.splits if_splits)
  qed
qed

lemma User_save_fault:
  "profile_store_fault (snd (User_save u d)) = profile_store_fault d"
  by (cases "user_exists (user_id u) d")
     (simp_all add: User_save_new User_save_update Profile_objects_create_fault)

lemma step_AtomicSave:
  "step d (AtomicSave u aborted) =
     (if fst (User_save u d) \<noteq> None \<or> aborted then rollback d (snd (User_save u d))
      else snd (User_save u d))"
  by (simp split: prod.splits)

lemma user_exists_User_save:
  "user_exists uid (snd (User_save u d)) = (user_exists uid d \<or> uid = user_id u)"
proof (rule User_save_cases [of u d])
  assume "user_exists (user_id u) d"
    and "users (snd (User_save u d)) =
           map (\<lambda>v. if user_id v = user_id u then u else v) (users d)"
  then show ?thesis
    unfolding user_exists_def by (auto simp only: user_ids_update)
qed (auto simp: user_exists_def)

section \<open>Invariants of the events\<close>

lemma user_exists_rollback:
  "user_exists uid (rollback d d') = user_exists uid d"
  by (simp add: user_exists_def rollback_def)

lemma no_orphan_step:
  assumes "no_orphan_profile d"
  shows "no_orphan_profile (step d ev)"
proof (cases ev)
  case (Save u)
  show ?thesis
    unfolding Save
    by (rule User_save_cases [of u d])
       (use assms in \<open>auto simp: no_orphan_profile_def user_exists_User_save\<close>)
next
  case (AtomicSave u aborted)
  show ?thesis
    unfolding AtomicSave step_AtomicSave
    by (rule User_save_cases [of u d])
       (use assms in
          \<open>auto simp: no_orphan_profile_def user_exists_User_save user_exists_rollback\<close>,
        auto simp: rollback_def)
next
  case (SetFault f)
  with assms show ?thesis by (simp add: no_orphan_profile_def user_exists_def)
qed

lemma distinct_step:
  assumes "distinct (map profile_user_id (profiles d))"
  shows "distinct (map profile_user_id (profiles (step d ev)))"
proof (cases ev)
  case (Save u)
  show ?thesis
    unfolding Save
    by (rule User_save_cases [of u d])
       (use assms in \<open>auto simp: profile_count_zero\<close>)
next
  case (AtomicSave u aborted)
  show ?thesis
    unfolding AtomicSave step_AtomicSave
    by (rule User_save_cases [of u d])
       (use assms in \<open>auto simp: profile_count_zero rollback_def\<close>)
next
  case (SetFault f)
  with assms show ?thesis by simp
qed

lemma one_each_save:
  assumes "one_profile_each d" and "fst (User_save u d) = None"
  shows "one_profile_each (snd (User_save u d))"
proof -
  have one: "\<And>uid. user_exists uid d \<Longrightarrow> profile_count uid d = 1"
    using assms(1) by (auto simp: one_profile_each_def user_exists_def)
  show ?thesis
  proof (rule User_save_cases [of u d])
    assume new: "\<not> user_exists (user_id u) d"
      and us: "users (snd (User_save u d)) = users d @ [u]"
      and ps: "profiles (snd (User_save u d)) = profiles d @ [\<lparr>profile_user_id = user_id u\<rparr>]"
      and zero: "profile_count (user_id u) d = 0"
    show ?thesis
      unfolding one_profile_each_def
    proof
      fix v assume "v \<in> set (users (snd (User_save u d)))"
      then consider "v = u" | "v \<in> set (users d)" using us by auto
      then show "profile_count (user_id v) (snd (User_save u d)) = 1"
      proof cases
        case 1
        with zero ps show ?thesis by (simp add: profile_count_def)
      next
        case 2
        then have ex: "user_exists (user_id v) d" by (auto simp: user_exists_def)
        with new have "user_id v \<noteq> user_id u" by auto
        with one [OF ex] ps show ?thesis by (simp add: profile_count_def)
      qed
    qed
  next
    fix e
    assume "fst (User_save u d) = Some e"
    with assms(2) show ?thesis by simp
  next
    assume us: "users (snd (User_save u d)) =
        map (\<lambda>v. if user_id v = user_id u then u else v) (users d)"
      and ps: "profiles (snd (User_save u d)) = profiles d"
    show ?thesis
      unfolding one_profile_each_def
    proof
      fix v assume "v \<in> set (users (snd (User_save u d)))"
      then have "user_id v \<in> set (map user_id (users (snd (User_save u d))))" by simp
      then have "user_exists (user_id v) d"
        unfolding us user_ids_update user_exists_def .
      from one [OF this] ps
      show "profile_count (user_id v) (snd (User_save u d)) = 1"
        by (simp add: profile_count_def)
    qed
  qed
qed

lemma one_each_rollback:
  "one_profile_each d \<Longrightarrow> one_profile_each (rollback d d')"
  by (simp add: one_profile_each_def rollback_def profile_count_def)

lemma one_each_AtomicSave:
  "one_profile_each d \<Longrightarrow> one_profile_each (step d (AtomicSave u aborted))"
  by (simp add: step_AtomicSave one_each_rollback one_each_save del: step.simps(2))

lemma one_each_SetFault:
  "one_profile_each d \<Longrightarrow> one_profile_each (step d (SetFault f))"
  by (simp add: one_profile_each_def profile_count_def)

lemma run_Nil: "run d [] = d"
  by (simp add: run_def)

lemma run_Cons: "run d (ev # evs) = run (step d ev) evs"
  by (simp add: run_def)

lemma no_orphan_run:
  "no_orphan_profile d \<Longrightarrow> no_orphan_profile (run d evs)"
  by (induction evs arbitrary: d) (simp_all add: run_Nil run_Cons no_orphan_step)

lemma distinct_run:
  "distinct (map profile_user_id (profiles d)) \<Longrightarrow>
     distinct (map profile_user_id (profiles (run d evs)))"
  by (induction evs arbitrary: d) (simp_all add: run_Nil run_Cons distinct_step)

lemma one_each_run:
  "one_profile_each d \<Longrightarrow> saves_ok d evs \<Longrightarrow> one_profile_each (run d evs)"
proof (induction d evs rule: saves_ok.induct)
  case (1 d)
  then show ?case by (simp add: run_Nil)
next
  case (2 d u evs)
  then show ?case by (simp add: run_Cons one_each_save)
next
  case (3 d u aborted evs)
  then show ?case by (simp add: run_Cons one_each_AtomicSave del: step.simps)
next
  case (4 d f evs)
  then show ?case by (simp add: run_Cons one_each_SetFault del: step.simps)
qed

lemma init_invariants:
  "no_orphan_profile init" "distinct (map profile_user_id (profiles init))"
  "one_profile_each init" "profile_store_fault init = None"
  by (simp_all add: init_def no_orphan_profile_def one_profile_each_def)

lemma profile_writes_follow_snoc:
  assumes "profile_writes_follow ws"
    and "\<And>uid. w = ProfileInsert uid \<Longrightarrow> ws \<noteq> [] \<and> last ws = UserInsert uid"
  shows "profile_writes_follow (ws @ [w])"
  unfolding profile_writes_follow_def
proof (intro allI impI)
  fix ws1 uid ws2
  assume eq: "ws @ [w] = ws1 @ ProfileInsert uid # ws2"
  show "ws1 \<noteq> [] \<and> last ws1 = UserInsert uid"
  proof (cases ws2 rule: rev_cases)
    case Nil
    with eq have "ws = ws1" and "w = ProfileInsert uid" by simp_all
    with assms(2) show ?thesis by simp
  next
    case (snoc ws2' w')
    with eq have "ws @ [w] = (ws1 @ ProfileInsert uid # ws2') @ [w']" by simp
    then have "ws = ws1 @ ProfileInsert uid # ws2'" by (simp only: append1_eq_conv)
    with assms(1) show ?thesis by (simp add: profile_writes_follow_def)
  qed
qed

lemma profile_writes_follow_save:
  assumes "profile_writes_follow (writes d)"
  shows "profile_writes_follow (writes (snd (User_save u d)))"
proof -
  have ins: "profile_writes_follow
      (writes d @ [UserInsert (user_id u), ProfileInsert (user_id u)])"
  proof -
    have "profile_writes_follow (writes d @ [UserInsert (user_id u)])"
      using profile_writes_follow_snoc [OF assms, of "UserInsert (user_id u)"] by simp
    from profile_writes_follow_snoc [OF this, of "ProfileInsert (user_id u)"]
    show ?thesis by simp
  qed
  have upd: "profile_writes_follow (writes d @ [UserUpdate (user_id u)])"
    using profile_writes_follow_snoc [OF assms, of "UserUpdate (user_id u)"] by simp
  show ?thesis
    by (rule User_save_cases [of u d]) (simp_all add: ins upd)
qed

lemma profile_writes_follow_step:
  "profile_writes_follow (writes d) \<Longrightarrow> profile_writes_follow (writes (step d ev))"
  by (cases ev)
     (simp_all add: step_AtomicSave profile_writes_follow_save rollback_def del: step.simps(2))

lemma profile_writes_follow_run:
  "profile_writes_follow (writes d) \<Longrightarrow> profile_writes_follow (writes (run d evs))"
  by (induction evs arbitrary: d) (simp_all add: run_Nil run_Cons profile_writes_follow_step)

lemma existing_user_step:
  assumes "user_exists uid d"
  shows "user_exists uid (step d ev) \<and> profile_count uid (step d ev) = profile_count uid d"
proof -
  have save: "user_exists uid (snd (User_save u d)) \<and>
      profile_count uid (snd (User_save u d)) = profile_count uid d" for u
    by (rule User_save_cases [of u d])
       (use assms in \<open>auto simp: user_exists_User_save profile_count_def\<close>)
  have rb: "user_exists uid (rollback d d') \<and> profile_count uid (rollback d d') = profile_count uid d" for d'
    using assms by (simp add: user_exists_rollback) (simp add: rollback_def profile_count_def)
  show ?thesis
  proof (cases ev)
    case (Save u)
    then show ?thesis using save by simp
  next
    case (AtomicSave u aborted)
    then show ?thesis using save rb by (simp add: step_AtomicSave del: step.simps(2))
  next
    case (SetFault f)
    then show ?thesis using assms by (simp add: user_exists_simps profile_count_simps)
  qed
qed

lemma existing_user_run:
  "user_exists uid d \<Longrightarrow> profile_count uid (run d evs) = profile_count uid d"
  by (induction evs arbitrary: d) (simp_all add: run_Nil run_Cons existing_user_step)

lemma build_profile_count:
  "profile_count uid (snd (build_profile sender inst created kwargs d)) =
     profile_count uid d +
       (if created \<and> fst (build_profile sender inst created kwargs d) = None
           \<and> uid = user_id inst then 1 else 0)"
  by (simp add: build_profile_def Profile_objects_create_profiles profile_count_def)

lemma fire_all_updates:
  "\<forall>f\<in>set fs. user_id (fst f) = uid \<longrightarrow> \<not> snd f \<Longrightarrow>
     profile_count uid (fire_all fs d) = profile_count uid d"
proof (induction fs arbitrary: d)
  case Nil
  then show ?case by simp
next
  case (Cons f fs)
  obtain u c where f: "f = (u, c)" by (cases f)
  from Cons.prems f have "\<not> (c \<and> uid = user_id u)" by auto
  then have "profile_count uid (snd (build_profile User u c [] d)) = profile_count uid d"
    by (auto simp: build_profile_count)
  with Cons f show ?case by simp
qed

lemma User_save_outcome_run:
  "fst (User_save u (run init evs)) =
     (if user_exists (user_id u) (run init evs) then None
      else profile_store_fault (run init evs))"
proof (rule User_save_cases [of u "run init evs"])
  fix e
  assume new: "\<not> user_exists (user_id u) (run init evs)"
    and e: "fst (User_save u (run init evs)) = Some e"
    and why: "profile_store_fault (run init evs) = Some e \<or> 0 < profile_count (user_id u) (run init evs)"
  have "profile_count (user_id u) (run init evs) = 0"
    using new no_orphan_run [OF init_invariants(1), of evs]
    by (auto simp: profile_count_zero no_orphan_profile_def)
  with why new e show ?thesis by simp
qed simp_all

lemmas eval_defs = run_def User_save_def save_table_def post_save_send_def build_profile_def
        Profile_objects_create_def profile_count_def user_exists_def init_def alice_def
        alice2_def bob_def store_down_def rollback_def

section \<open>The claims\<close>

text \<open>
  C1 (as amended). A firing of \<open>build_profile\<close> adds a Profile row exactly when
  \<open>created\<close> is true and the Profile-store create does not raise, which it does not
  exactly when the storage is healthy, the user has no Profile yet and the User row
  exists. Then the firing returns normally and the Profile table gains one row,
  referencing the instance; the count of every other user is as before. With
  \<open>created\<close> false the firing returns normally and changes nothing; with
  \<open>created\<close> true and the create raising, the firing raises what the create raised
  and no row is added.
\<close>

theorem build_profile_creates_iff_created_and_stored:
  "fst (build_profile sender inst created kwargs d) =
     (if created then fst (Profile_objects_create inst d) else None)
   \<and> (fst (Profile_objects_create inst d) = None) =
       (profile_store_fault d = None \<and> profile_count (user_id inst) d = 0
        \<and> user_exists (user_id inst) d)
   \<and> profiles (snd (build_profile sender inst created kwargs d)) =
     (if created \<and> fst (Profile_objects_create inst d) = None
      then profiles d @ [\<lparr>profile_user_id = user_id inst\<rparr>] else profiles d)
   \<and> profile_count uid (snd (build_profile sender inst created kwargs d)) =
     profile_count uid d +
       (if created \<and> fst (Profile_objects_create inst d) = None
           \<and> uid = user_id inst then 1 else 0)
   \<and> (\<not> created \<longrightarrow> build_profile sender inst created kwargs d = (None, d))"
  by (simp add: build_profile_def Profile_objects_create_profiles Profile_objects_create_ok
        profile_count_def)

text \<open>
  C1, witness: alice's row has just been inserted; the firing with \<open>created = True\<close>
  returns normally and adds her one Profile, the firing with \<open>created = False\<close> does
  nothing.
\<close>

theorem build_profile_creates_iff_created_and_stored_witness:
  "fst (Profile_objects_create alice (init\<lparr>users := [alice]\<rparr>)) = None
   \<and> fst (build_profile User alice True [] (init\<lparr>users := [alice]\<rparr>)) = None
   \<and> profiles (snd (build_profile User alice True [] (init\<lparr>users := [alice]\<rparr>))) =
     [\<lparr>profile_user_id = 1\<rparr>]
   \<and> profile_count 1 (snd (build_profile User alice True [] (init\<lparr>users := [alice]\<rparr>))) = 1
   \<and> build_profile User alice False [] (init\<lparr>users := [alice]\<rparr>) =
       (None, init\<lparr>users := [alice]\<rparr>)"
  using build_profile_creates_iff_created_and_stored
          [of User alice True "[]" "init\<lparr>users := [alice]\<rparr>" 1]
        build_profile_creates_iff_created_and_stored
          [of User alice False "[]" "init\<lparr>users := [alice]\<rparr>" 1]
  by (simp add: profile_count_def user_exists_def init_def alice_def)

text \<open>
  C1 as stated fails: with the Profile storage unavailable, a firing with
  \<open>created = True\<close> for alice, whose row is there, raises and creates no Profile row.
\<close>

theorem build_profile_created_store_down:
  "fst (build_profile User alice True [] (store_down\<lparr>users := [alice]\<rparr>)) = Some StorageFault
   \<and> profiles (snd (build_profile User alice True [] (store_down\<lparr>users := [alice]\<rparr>))) = []
   \<and> profile_count 1 (snd (build_profile User alice True [] (store_down\<lparr>users := [alice]\<rparr>))) = 0"
  by (simp add: build_profile_def Profile_objects_create_def profile_count_def init_def
        store_down_def alice_def)

text \<open>
  C2 (as amended). In every state the events lead to from the empty database, every User
  has at most one Profile, and every Profile references a User that exists. Every User
  has exactly one Profile in every state reached by events among which every save made
  outside a transaction returned normally, that is, no Profile-store write failed and
  was left standing. (A save whose Profile write fails keeps the User row, and that User
  then has none.)
\<close>

theorem one_profile_per_user_unless_store_failed:
  "(\<forall>u\<in>set (users (run init evs)). profile_count (user_id u) (run init evs) \<le> 1)
   \<and> (\<forall>p\<in>set (profiles (run init evs)). user_exists (profile_user_id p) (run init evs))
   \<and> (saves_ok init evs \<longrightarrow>
        (\<forall>u\<in>set (users (run init evs)). profile_count (user_id u) (run init evs) = 1))"
  using distinct_profile_count [OF distinct_run [OF init_invariants(2)], of _ evs]
        one_each_run [OF init_invariants(3), of evs]
        no_orphan_run [OF init_invariants(1), of evs]
  by (simp add: one_profile_each_def no_orphan_profile_def)

text \<open>
  C2, witness: the Profile storage fails and recovers before anything is saved, then
  alice and bob are created, a creation of alice's namesake inside a transaction is
  aborted, and alice is updated; no save raised, and each of the two users has exactly
  one Profile.
\<close>

theorem one_profile_per_user_unless_store_failed_witness:
  "saves_ok init
     [SetFault (Some StorageFault), SetFault None, Save alice, Save bob,
      AtomicSave alice2 True, Save alice2]
   \<and> users (run init
        [SetFault (Some StorageFault), SetFault None, Save alice, Save bob,
         AtomicSave alice2 True, Save alice2]) = [alice2, bob]
   \<and> profile_count (user_id alice2) (run init
        [SetFault (Some StorageFault), SetFault None, Save alice, Save bob,
         AtomicSave alice2 True, Save alice2]) = 1
   \<and> profile_count (user_id bob) (run init
        [SetFault (Some StorageFault), SetFault None, Save alice, Save bob,
         AtomicSave alice2 True, Save alice2]) = 1"
  using one_profile_per_user_unless_store_failed
    [of "[SetFault (Some StorageFault), SetFault None, Save alice, Save bob,
          AtomicSave alice2 True, Save alice2]"]
  by (simp add: eval_defs)

text \<open>
  C2 as stated fails: the Profile storage is unavailable when alice is created; the save
  raises, her row stays in the User table, and she has no Profile.
\<close>

theorem user_without_profile_after_store_fault:
  "users (run init [SetFault (Some StorageFault), Save alice]) = [alice]
   \<and> profile_count (user_id alice) (run init [SetFault (Some StorageFault), Save alice]) = 0"
  by (simp add: run_def User_save_def save_table_def post_save_send_def build_profile_def
        Profile_objects_create_def profile_count_def user_exists_def init_def alice_def)

text \<open>
  C3 (as amended). A save of a User raises \<open>e\<close> exactly when it is a creation and the
  Profile-store create inside the receiver raises \<open>e\<close>: the failure of the write is
  reported to the caller of the save, as the \<open>ProvisioningError\<close> the create raised.
  After such a failed creation the Profile table is as it was before the save, so no
  Profile row exists for that user (every state the events lead to has no Profile without
  its User). The User row written before the receiver fired stays in the User table:
  nothing in the receiver undoes it, and the two writes are atomic only when the caller
  ran the save inside a transaction of its own, which then restores both tables.
\<close>

theorem failed_provisioning_keeps_user_row:
  "(fst (User_save u d) = Some e) =
     (\<not> user_exists (user_id u) d
      \<and> fst (Profile_objects_create u (snd (save_table u d))) = Some e)
   \<and> (\<not> user_exists (user_id u) d
        \<and> fst (Profile_objects_create u (snd (save_table u d))) = Some e \<longrightarrow>
      fst (User_save u d) = Some e
      \<and> users (snd (User_save u d)) = users d @ [u]
      \<and> profiles (snd (User_save u d)) = profiles d
      \<and> (no_orphan_profile d \<longrightarrow> profile_count (user_id u) (snd (User_save u d)) = 0)
      \<and> users (step d (AtomicSave u aborted)) = users d
      \<and> profiles (step d (AtomicSave u aborted)) = profiles d)
   \<and> no_orphan_profile (run init evs)"
proof -
  have iff: "(fst (User_save u d) = Some e) =
     (\<not> user_exists (user_id u) d
      \<and> fst (Profile_objects_create u (snd (save_table u d))) = Some e)"
    by (simp add: User_save_def save_table_def post_save_send_def build_profile_def)
  have after: "users (snd (User_save u d)) = users d @ [u]
      \<and> profiles (snd (User_save u d)) = profiles d
      \<and> (no_orphan_profile d \<longrightarrow> profile_count (user_id u) (snd (User_save u d)) = 0)
      \<and> users (step d (AtomicSave u aborted)) = users d
      \<and> profiles (step d (AtomicSave u aborted)) = profiles d"
    if e: "fst (User_save u d) = Some e"
  proof (rule User_save_cases [of u d])
    fix e'
    assume new: "\<not> user_exists (user_id u) d"
      and us: "users (snd (User_save u d)) = users d @ [u]"
      and ps: "profiles (snd (User_save u d)) = profiles d"
    have "no_orphan_profile d \<longrightarrow> profile_count (user_id u) (snd (User_save u d)) = 0"
      using new ps by (auto simp: profile_count_def no_orphan_profile_def filter_empty_conv)
    moreover have "users (step d (AtomicSave u aborted)) = users d"
      "profiles (step d (AtomicSave u aborted)) = profiles d"
      using e by (simp_all add: step_AtomicSave rollback_def del: step.simps(2))
    ultimately show ?thesis using us ps by simp
  qed (use e in simp_all)
  show ?thesis
    using iff after no_orphan_run [OF init_invariants(1), of evs] by blast
qed

text \<open>
  C3, witness: creating alice while the Profile storage is unavailable: the create
  raises \<open>StorageFault\<close> and so does the save; her User row is there, no Profile row
  is, and the same save inside a transaction leaves the User table empty.
\<close>

theorem failed_provisioning_keeps_user_row_witness:
  "\<not> user_exists (user_id alice) store_down
   \<and> fst (Profile_objects_create alice (snd (save_table alice store_down))) = Some StorageFault
   \<and> fst (User_save alice store_down) = Some StorageFault
   \<and> users (snd (User_save alice store_down)) = [alice]
   \<and> profiles (snd (User_save alice store_down)) = []
   \<and> no_orphan_profile store_down
   \<and> profile_count (user_id alice) (snd (User_save alice store_down)) = 0
   \<and> users (step store_down (AtomicSave alice False)) = []"
  using failed_provisioning_keeps_user_row [of alice store_down StorageFault False "[]"]
  by (simp add: eval_defs no_orphan_profile_def)

text \<open>
  C3 as stated fails: after the failed creation of alice the save has reported the
  failure, and the User table holds alice without a Profile.
\<close>

theorem save_fails_user_row_remains:
  "fst (User_save alice store_down) = Some StorageFault
   \<and> user_exists (user_id alice) (snd (User_save alice store_down))
   \<and> profile_count (user_id alice) (snd (User_save alice store_down)) = 0"
  by (simp add: eval_defs)

text \<open>
  C4. The receiver raises exactly when it was fired with \<open>created\<close> true and the
  Profile-store create raises, and it raises that same error. It does not retry: a firing
  issues one Profile write when \<open>created\<close> is true, none otherwise, whether or not
  the write is rejected. The error reaches the caller of the save: the outcome of
  \<open>User_save\<close> is the outcome of the receiver it fired.
\<close>

theorem build_profile_raises_iff_create_raises:
  "(fst (build_profile sender inst created kwargs d) = Some e) =
     (created \<and> fst (Profile_objects_create inst d) = Some e)
   \<and> length (filter is_profile_write (writes (snd (build_profile sender inst created kwargs d)))) =
       length (filter is_profile_write (writes d)) + (if created then 1 else 0)
   \<and> fst (User_save u d) =
       fst (build_profile User u (\<not> user_exists (user_id u) d) post_save_kwargs
              (snd (save_table u d)))"
  by (simp add: build_profile_def Profile_objects_create_writes User_save_def save_table_def
        post_save_send_def)

text \<open>
  C4, witness: fired for alice on a healthy store that holds her row the receiver
  returns normally, as the create does; with the storage unavailable both raise \<open>StorageFault\<close>, one Profile
  write was issued, and the save of alice reports the fault.
\<close>

theorem build_profile_raises_iff_create_raises_witness:
  "fst (build_profile User alice True [] store_down) = Some StorageFault
   \<and> fst (Profile_objects_create alice store_down) = Some StorageFault
   \<and> length (filter is_profile_write (writes (snd (build_profile User alice True [] store_down)))) = 1
   \<and> fst (User_save alice store_down) = Some StorageFault
   \<and> fst (build_profile User alice True [] (init\<lparr>users := [alice]\<rparr>)) = None"
  using build_profile_raises_iff_create_raises [of User alice True "[]" store_down StorageFault alice]
        build_profile_raises_iff_create_raises
          [of User alice True "[]" "init\<lparr>users := [alice]\<rparr>" StorageFault alice]
  by (simp add: build_profile_def Profile_objects_create_def profile_count_def init_def
        store_down_def alice_def save_table_def user_exists_def)

text \<open>
  C5. A firing never touches the User table. With \<open>created\<close> true it issues exactly
  one write, the Profile-store create for the instance: the database after the firing is
  the database after that one create, the record of writes has grown by that one
  Profile insert, and the Profile table is the old one, with the new row at its end when
  the create was accepted. With \<open>created\<close> false it leaves the whole database as it
  was.
\<close>

theorem build_profile_frame:
  "users (snd (build_profile sender inst created kwargs d)) = users d
   \<and> snd (build_profile sender inst created kwargs d) =
       (if created then snd (Profile_objects_create inst d) else d)
   \<and> writes (snd (build_profile sender inst created kwargs d)) =
       writes d @ (if created then [ProfileInsert (user_id inst)] else [])
   \<and> profiles (snd (build_profile sender inst created kwargs d)) =
       (if created \<and> profile_store_fault d = None \<and> profile_count (user_id inst) d = 0
           \<and> user_exists (user_id inst) d
        then profiles d @ [\<lparr>profile_user_id = user_id inst\<rparr>] else profiles d)
   \<and> profile_store_fault (snd (build_profile sender inst created kwargs d)) =
       profile_store_fault d
   \<and> (\<not> created \<longrightarrow> snd (build_profile sender inst created kwargs d) = d)"
  by (simp add: build_profile_def Profile_objects_create_users Profile_objects_create_writes
        Profile_objects_create_profiles Profile_objects_create_ok Profile_objects_create_fault)

text \<open>
  C5, witness: fired for alice with \<open>created = True\<close> the receiver leaves the User
  table \<open>[alice]\<close>, issues the one Profile insert and the Profile table holds her row;
  fired for bob once his row is inserted too, the table holds her row and then his; with
  \<open>created = False\<close> the database is untouched.
\<close>

theorem build_profile_frame_witness:
  "users (snd (build_profile User alice True [] (init\<lparr>users := [alice]\<rparr>))) = [alice]
   \<and> writes (snd (build_profile User alice True [] (init\<lparr>users := [alice]\<rparr>))) =
       [ProfileInsert 1]
   \<and> profiles (snd (build_profile User alice True [] (init\<lparr>users := [alice]\<rparr>))) =
       [\<lparr>profile_user_id = 1\<rparr>]
   \<and> profiles (snd (build_profile User bob True []
         ((run init [Save alice])\<lparr>users := [alice, bob]\<rparr>))) =
       [\<lparr>profile_user_id = 1\<rparr>, \<lparr>profile_user_id = 2\<rparr>]
   \<and> snd (build_profile User alice False [] (init\<lparr>users := [alice]\<rparr>)) =
       init\<lparr>users := [alice]\<rparr>"
  using build_profile_frame [of User alice True "[]" "init\<lparr>users := [alice]\<rparr>"]
        build_profile_frame [of User alice False "[]" "init\<lparr>users := [alice]\<rparr>"]
        build_profile_frame
          [of User bob True "[]" "(run init [Save alice])\<lparr>users := [alice, bob]\<rparr>"]
  by (simp add: eval_defs)

text \<open>
  C6. A firing with \<open>created = False\<close> returns normally and leaves the database as
  it was, so firing it again changes nothing. In any sequence of firings in which every
  firing for a given user has \<open>created = False\<close>, whatever the firings for other
  users are, that user's Profile count at the end is what it was at the start; the same
  holds for any sequence of events once the user exists. A save that updates an existing
  User issues the User update and no other write: no receiver re-saves the Profile (the
  \<open>save_profile\<close> receiver is commented out in the source and not connected).
\<close>

theorem update_path_keeps_profile_count:
  "build_profile sender inst False kwargs d = (None, d)
   \<and> build_profile sender inst False kwargs (snd (build_profile sender inst False kwargs d)) =
       build_profile sender inst False kwargs d
   \<and> ((\<forall>f\<in>set fs. user_id (fst f) = uid \<longrightarrow> \<not> snd f) \<longrightarrow>
        profile_count uid (fire_all fs d) = profile_count uid d)
   \<and> (user_exists uid d \<longrightarrow> profile_count uid (run d evs) = profile_count uid d)
   \<and> (user_exists (user_id u) d \<longrightarrow>
        fst (User_save u d) = None
        \<and> profiles (snd (User_save u d)) = profiles d
        \<and> writes (snd (User_save u d)) = writes d @ [UserUpdate (user_id u)])"
  using fire_all_updates [of fs uid d] existing_user_run [of uid d evs]
  by (simp add: build_profile_def User_save_update)

text \<open>
  C6, witness: alice exists with her one Profile; updates of alice interleaved with the
  creation of bob leave her count at 1, and the update issues only \<open>UserUpdate 1\<close>.
\<close>

theorem update_path_keeps_profile_count_witness:
  "profile_count 1 (fire_all [(alice2, False), (bob, True), (alice, False)] (run init [Save alice])) = 1
   \<and> user_exists 1 (run init [Save alice])
   \<and> profile_count 1 (run (run init [Save alice]) [Save alice2, Save bob, Save alice]) = 1
   \<and> writes (snd (User_save alice2 (run init [Save alice]))) =
       [UserInsert 1, ProfileInsert 1, UserUpdate 1]"
  using update_path_keeps_profile_count
    [of User alice "[]" "run init [Save alice]" "[(alice2, False), (bob, True), (alice, False)]" 1
        "[Save alice2, Save bob, Save alice]" alice2]
  by (simp add: eval_defs)

text \<open>
  C7. Creating the User with id 1 and name alice (the receiver fires with
  \<open>created = True\<close>) returns normally and leaves exactly one Profile for user 1;
  updating the User with id 1 to the name alice2 (the receiver fires with
  \<open>created = False\<close>) returns normally and the count for user 1 is still 1. The same
  holds of the two firings of the receiver alone, on a database that holds the row of
  user 1.
\<close>

theorem alice_scenario:
  "fst (User_save alice init) = None
   \<and> profile_count 1 (run init [Save alice]) = 1
   \<and> fst (User_save alice2 (run init [Save alice])) = None
   \<and> profile_count 1 (run init [Save alice, Save alice2]) = 1
   \<and> users (run init [Save alice, Save alice2]) = [alice2]
   \<and> profile_count 1 (fire_all [(alice, True)] (init\<lparr>users := [alice]\<rparr>)) = 1
   \<and> profile_count 1
       (fire_all [(alice, True), (alice2, False)] (init\<lparr>users := [alice]\<rparr>)) = 1"
  by (simp add: eval_defs)

text \<open>
  C8. In every sequence of events from the empty database, each Profile write in the
  record of writes comes directly after the insert of the User row it is for; the receiver
  is fired on a database that already holds the saved User row; every Profile references
  a User that exists; and a save inside a transaction that rolls back leaves both tables
  as they were, hence no Profile without its User.
\<close>

theorem profile_write_follows_user_write:
  "(\<forall>ws1 uid ws2. writes (run init evs) = ws1 @ ProfileInsert uid # ws2 \<longrightarrow>
       ws1 \<noteq> [] \<and> last ws1 = UserInsert uid)
   \<and> (\<forall>p\<in>set (profiles (run init evs)). user_exists (profile_user_id p) (run init evs))
   \<and> user_exists (user_id u) (snd (save_table u d))
   \<and> User_save u d = build_profile User u (fst (save_table u d)) post_save_kwargs (snd (save_table u d))
   \<and> users (step d (AtomicSave u True)) = users d
   \<and> profiles (step d (AtomicSave u True)) = profiles d"
proof -
  have "profile_writes_follow (writes init)"
    by (simp add: profile_writes_follow_def init_def)
  from profile_writes_follow_run [OF this, of evs]
  have "\<forall>ws1 uid ws2. writes (run init evs) = ws1 @ ProfileInsert uid # ws2 \<longrightarrow>
       ws1 \<noteq> [] \<and> last ws1 = UserInsert uid"
    by (simp add: profile_writes_follow_def)
  moreover have "\<forall>p\<in>set (profiles (run init evs)). user_exists (profile_user_id p) (run init evs)"
    using no_orphan_run [OF init_invariants(1), of evs] by (simp add: no_orphan_profile_def)
  moreover have "user_exists (user_id u) (snd (save_table u d))"
    by (simp add: save_table_def user_exists_def user_ids_update del: set_map map_map)
  moreover have "User_save u d =
      build_profile User u (fst (save_table u d)) post_save_kwargs (snd (save_table u d))"
    by (simp add: User_save_def post_save_send_def split: prod.splits)
  moreover have "users (step d (AtomicSave u True)) = users d"
    "profiles (step d (AtomicSave u True)) = profiles d"
    by (simp_all add: step_AtomicSave rollback_def del: step.simps(2))
  ultimately show ?thesis by simp
qed

text \<open>
  C8, witness: after creating alice, updating her and creating bob, the Profile write
  for bob follows the insert of bob's row; a creation of bob inside a transaction that
  rolls back leaves alice and her Profile only.
\<close>

theorem profile_write_follows_user_write_witness:
  "writes (run init [Save alice, Save alice2, Save bob]) =
     [UserInsert 1, ProfileInsert 1, UserUpdate 1, UserInsert 2] @ ProfileInsert 2 # []
   \<and> last [UserInsert 1, ProfileInsert 1, UserUpdate 1, UserInsert 2] = UserInsert 2
   \<and> profiles (run init [Save alice, AtomicSave bob True]) = [\<lparr>profile_user_id = 1\<rparr>]
   \<and> user_exists 1 (run init [Save alice, AtomicSave bob True])
   \<and> users (run init [Save alice, AtomicSave bob True]) = [alice]"
  using profile_write_follows_user_write [of "[Save alice, Save alice2, Save bob]" bob init]
    profile_write_follows_user_write [of "[Save alice, AtomicSave bob True]" bob "run init [Save alice]"]
  by (simp add: eval_defs)

text \<open>
  C9. The sender and the extra keyword arguments do not influence a firing: two firings
  with the same instance and flag on the same database give the same outcome and the same
  database.
\<close>

theorem build_profile_ignores_sender_kwargs:
  "build_profile sender1 inst created kwargs1 d = build_profile sender2 inst created kwargs2 d"
  by (simp add: build_profile_def)

text \<open>
  C10. The receiver checks nothing before creating: fired with \<open>created = True\<close> it
  is the Profile-store create, and it issues the Profile write also for a user who already
  has a Profile. With the storage healthy it raises \<open>DuplicateAssociation\<close> exactly
  when it is fired with \<open>created = True\<close> for a user who has a Profile. The
  persistence layer, which fires it with \<open>created = True\<close> once per inserted row,
  never gets there: in every state the events lead to, a save raises only what the storage
  fault is, and only on a creation.
\<close>

theorem build_profile_no_existence_check:
  "build_profile sender inst True kwargs d = Profile_objects_create inst d
   \<and> writes (snd (build_profile sender inst True kwargs d)) =
       writes d @ [ProfileInsert (user_id inst)]
   \<and> (profile_store_fault d = None \<longrightarrow>
        (fst (build_profile sender inst created kwargs d) = Some DuplicateAssociation) =
        (created \<and> 0 < profile_count (user_id inst) d))
   \<and> fst (User_save u (run init evs)) =
       (if user_exists (user_id u) (run init evs) then None
        else profile_store_fault (run init evs))"
  using User_save_outcome_run [of u evs]
  by (simp add: build_profile_def Profile_objects_create_writes Profile_objects_create_fst)

text \<open>
  C10, witness: alice has her Profile; a second firing with \<open>created = True\<close> issues
  a second Profile write, raises \<open>DuplicateAssociation\<close> and leaves her count at 1,
  while a save of alice, being an update, returns normally.
\<close>

theorem build_profile_no_existence_check_witness:
  "profile_count (user_id alice) (run init [Save alice]) = 1
   \<and> profile_store_fault (run init [Save alice]) = None
   \<and> fst (build_profile User alice True [] (run init [Save alice])) = Some DuplicateAssociation
   \<and> writes (snd (build_profile User alice True [] (run init [Save alice]))) =
       [UserInsert 1, ProfileInsert 1, ProfileInsert 1]
   \<and> profile_count (user_id alice) (snd (build_profile User alice True [] (run init [Save alice]))) = 1
   \<and> fst (User_save alice (run init [Save alice])) = None"
  using build_profile_no_existence_check [of User alice "[]" "run init [Save alice]" True alice "[Save alice]"]
  by (simp add: eval_defs)

end
